theory Spec2Isabelle
  imports Main
begin

section \<open>Regular expressions as Python's \<open>re\<close> matches them\<close>

text \<open>
  The script uses two patterns, both through \<open>re.match\<close>. They are built from single
  characters, negated one-character classes, the dot, greedy \<open>+\<close> on one of these,
  greedy \<open>?\<close>, capturing groups, \<open>^\<close> and \<open>$\<close>. The matcher below is the backtracking
  search of \<open>re\<close> for this fragment, in continuation-passing style: the continuation
  is the rest of the pattern, a greedy operator tries its longer alternative first, and a
  group's text is recorded when the group is left. Without flags, \<open>^\<close> matches at the
  start of the subject, \<open>$\<close> at its end and before a line feed that ends it, and the
  dot matches every character but the line feed.

  A Python string is a sequence of code points; here it is a \<open>string\<close>, so the
  characters are those below 256.
\<close>

datatype item = Lit char | Dot | NoneOf char

datatype regex =
    Bol
  | Eol
  | One item
  | PlusG item
  | OptG regex
  | Group string regex
  | Seq regex regex

type_synonym groups = "string \<rightharpoonup> string"

definition newline :: char where
  "newline = CHR 0x0A"

fun item_ok :: "item \<Rightarrow> char \<Rightarrow> bool" where
  "item_ok (Lit a) c = (c = a)"
| "item_ok Dot c = (c \<noteq> newline)"
| "item_ok (NoneOf a) c = (c \<noteq> a)"

fun plus_item :: "item \<Rightarrow> string \<Rightarrow> (string \<Rightarrow> 'a option) \<Rightarrow> 'a option" where
  "plus_item it [] k = None"
| "plus_item it (c # cs) k =
     (if item_ok it c
      then (case plus_item it cs k of Some r \<Rightarrow> Some r | None \<Rightarrow> k cs)
      else None)"

fun rmatch :: "regex \<Rightarrow> string \<Rightarrow> string \<Rightarrow> groups \<Rightarrow> (string \<Rightarrow> groups \<Rightarrow> groups option) \<Rightarrow> groups option" where
  "rmatch Bol subj s g k = (if length s = length subj then k s g else None)"
| "rmatch Eol subj s g k = (if s = [] \<or> s = [newline] then k s g else None)"
| "rmatch (One it) subj s g k =
     (case s of [] \<Rightarrow> None | c # cs \<Rightarrow> if item_ok it c then k cs g else None)"
| "rmatch (PlusG it) subj s g k = plus_item it s (\<lambda>s'. k s' g)"
| "rmatch (OptG r) subj s g k =
     (case rmatch r subj s g k of Some res \<Rightarrow> Some res | None \<Rightarrow> k s g)"
| "rmatch (Group name r) subj s g k =
     rmatch r subj s g (\<lambda>s' g'. k s' (g'(name \<mapsto> take (length s - length s') s)))"
| "rmatch (Seq r1 r2) subj s g k =
     rmatch r1 subj s g (\<lambda>s' g'. rmatch r2 subj s' g' k)"

definition re_match :: "regex \<Rightarrow> string \<Rightarrow> groups option" where
  "re_match r s = rmatch r s s Map.empty (\<lambda>s' g. Some g)"

text \<open>The groups of a pattern, by name.\<close>

fun group_names :: "regex \<Rightarrow> string set" where
  "group_names (OptG r) = group_names r"
| "group_names (Group name r) = insert name (group_names r)"
| "group_names (Seq r1 r2) = group_names r1 \<union> group_names r2"
| "group_names _ = {}"

section \<open>Values and exceptions\<close>

text \<open>
  Python values that the script only passes on: the result of \<open>yaml.load\<close> and of
  \<open>response.json()\<close> (floating point numbers left out). Text and bytes are both
  \<open>string\<close> here. A dictionary is the list of its items, each key once.
\<close>

datatype pyval =
    PNone
  | PBool bool
  | PInt int
  | PStr string
  | PList "pyval list"
  | PDict "(string \<times> pyval) list"

datatype error =
    Exception string
  | CalledProcessError int "string list"
  | FileNotFoundError string
  | OSError string
  | UnicodeDecodeError
  | YAMLError
  | ConnectionError
  | JSONDecodeError
  | HTTPError nat
  | KeyError string
  | TypeError

section \<open>Parsing the remote URL\<close>

text \<open>
  \<open>RemoteInfo = namedtuple('RemoteInfo', ['service', 'organization', 'repo_name'])\<close>.
  \<open>match.group\<close> returns a string, or \<open>None\<close> for a group that took no part in the
  match, so the two fields filled from groups are optional strings.
\<close>

record RemoteInfo =
  service :: string
  organization :: "string option"
  repo_name :: "string option"

text \<open>
  \<^verbatim>\<open>^((?P<user>[^@]+)@)?(?P<hostname>[^:]+):(?P<organization>[^/]+)/(?P<repo_name>.+).git?$\<close>
  The outer, unnamed group of the user part is group number 1.
\<close>

definition url_pattern :: regex where
  "url_pattern =
     Seq Bol
    (Seq (OptG (Group ''1'' (Seq (Group ''user'' (PlusG (NoneOf CHR ''@''))) (One (Lit CHR ''@'')))))
    (Seq (Group ''hostname'' (PlusG (NoneOf CHR '':'')))
    (Seq (One (Lit CHR '':''))
    (Seq (Group ''organization'' (PlusG (NoneOf CHR ''/'')))
    (Seq (One (Lit CHR ''/''))
    (Seq (Group ''repo_name'' (PlusG Dot))
    (Seq (One Dot)
    (Seq (One (Lit CHR ''g''))
    (Seq (One (Lit CHR ''i''))
    (Seq (OptG (One (Lit CHR ''t'')))
     Eol))))))))))"

definition parse_url_to_remote_info :: "string \<Rightarrow> error + RemoteInfo" where
  "parse_url_to_remote_info url =
     (case re_match url_pattern url of
        None \<Rightarrow> Inl (Exception (''Could not parse remote URL '' @ url))
      | Some m \<Rightarrow>
          if m ''hostname'' \<noteq> Some ''github.com''
          then Inl (Exception (''Could not parse remote URL '' @ url))
          else Inr \<lparr>service = ''github'', organization = m ''organization'',
                    repo_name = m ''repo_name''\<rparr>)"

section \<open>The world outside the script\<close>

text \<open>
  \<open>subprocess.run\<close> gives a completed process; \<open>requests.post\<close> a response, of which
  the script reads the status (in \<open>raise_for_status\<close>) and the result of \<open>.json()\<close>:
  the decoded body, or nothing when the body is not valid JSON and \<open>.json()\<close> raises.
\<close>

record proc_result =
  returncode :: int
  stdout :: string

record request =
  url :: string
  auth :: "pyval \<times> string"
  data :: "(string \<times> string) list"

record response =
  status_code :: nat
  json :: "pyval option"

text \<open>
  What the script calls and does not define: running a process (arguments, working
  directory), decoding UTF-8, reading a file, \<open>os.path.expanduser\<close>, \<open>yaml.load\<close>,
  \<open>requests.post\<close>, and \<open>str\<close> of a value that is not a string.
\<close>

record world =
  run :: "string list \<Rightarrow> string option \<Rightarrow> error + proc_result"
  decode_utf8 :: "string \<Rightarrow> error + string"
  read_file :: "string \<Rightarrow> error + string"
  expanduser :: "string \<Rightarrow> string"
  yaml_load :: "string \<Rightarrow> error + pyval"
  post :: "request \<Rightarrow> error + response"
  repr :: "pyval \<Rightarrow> string"

text \<open>What a run does that can be seen: the calls of \<open>requests.post\<close>, the text
  written to standard output, and how \<open>main\<close> ended.\<close>

record outcome =
  posts :: "request list"
  printed :: string
  result :: "error + unit"

section \<open>The helpers of the script\<close>

text \<open>\<open>str.strip()\<close>: the characters below 256 for which \<open>str.isspace\<close> holds.\<close>

definition is_space :: "char \<Rightarrow> bool" where
  "is_space c \<longleftrightarrow>
     c \<in> set [CHR 0x09, CHR 0x0A, CHR 0x0B, CHR 0x0C, CHR 0x0D, CHR 0x1C, CHR 0x1D, CHR 0x1E,
                CHR 0x1F, CHR 0x20, CHR 0x85, CHR 0xA0]"

definition strip :: "string \<Rightarrow> string" where
  "strip s = rev (dropWhile is_space (rev (dropWhile is_space s)))"

text \<open>\<open>subprocess.run(args, cwd=cwd, check=True)\<close>\<close>

definition run_checked :: "world \<Rightarrow> string list \<Rightarrow> string option \<Rightarrow> error + proc_result" where
  "run_checked w args cwd =
     (case run w args cwd of
        Inl e \<Rightarrow> Inl e
      | Inr r \<Rightarrow> if returncode r \<noteq> 0 then Inl (CalledProcessError (returncode r) args)
                 else Inr r)"

definition execute :: "world \<Rightarrow> string list \<Rightarrow> error + string" where
  "execute w args =
     (case run_checked w args None of
        Inl e \<Rightarrow> Inl e
      | Inr r \<Rightarrow> (case decode_utf8 w (stdout r) of
                    Inl e \<Rightarrow> Inl e
                  | Inr text \<Rightarrow> Inr (strip text)))"

text \<open>The last argument of the command is \<open>@\<close> followed by \<open>{upstream}\<close>.\<close>

definition get_remote_tracking_branch :: "world \<Rightarrow> error + string" where
  "get_remote_tracking_branch w =
     execute w [''git'', ''rev-parse'', ''--abbrev-ref'', ''--symbolic-full-name'', CHR ''@'' # ''{upstream}'']"

definition get_url_for_remote :: "world \<Rightarrow> string \<Rightarrow> error + string" where
  "get_url_for_remote w remote_name =
     execute w [''git'', ''remote'', ''get-url'', ''--push'', remote_name]"

definition get_current_commit :: "world \<Rightarrow> error + string" where
  "get_current_commit w = execute w [''git'', ''rev-parse'', ''HEAD'']"

text \<open>\<open>os.path.join\<close> of two components (POSIX).\<close>

definition os_path_join :: "string \<Rightarrow> string \<Rightarrow> string" where
  "os_path_join a b =
     (if b \<noteq> [] \<and> hd b = CHR ''/'' then b
      else if a = [] \<or> last a = CHR ''/'' then a @ b
      else a @ ''/'' @ b)"

definition get_config_yml :: "world \<Rightarrow> string \<Rightarrow> error + string" where
  "get_config_yml w top_dir = read_file w (os_path_join top_dir ''.circleci/config.yml'')"

text \<open>\<open>value[key]\<close> with a string key.\<close>

fun subscript :: "pyval \<Rightarrow> string \<Rightarrow> error + pyval" where
  "subscript (PDict kvs) key =
     (case map_of kvs key of None \<Rightarrow> Inl (KeyError key) | Some v \<Rightarrow> Inr v)"
| "subscript _ key = Inl TypeError"

definition get_auth_token :: "world \<Rightarrow> error + pyval" where
  "get_auth_token w =
     (case read_file w (expanduser w ''~/.circleci/cli.yml'') of
        Inl e \<Rightarrow> Inl e
      | Inr config \<Rightarrow> (case yaml_load w config of
                         Inl e \<Rightarrow> Inl e
                       | Inr config_yaml \<Rightarrow> subscript config_yaml ''token''))"

text \<open>\<open>response.raise_for_status()\<close> of the requests library: a status from 400 to 599 raises.\<close>

definition raise_for_status :: "response \<Rightarrow> error + unit" where
  "raise_for_status r =
     (if 400 \<le> status_code r \<and> status_code r < 600 then Inl (HTTPError (status_code r))
      else Inr ())"

text \<open>How \<open>str.format\<close> and \<open>print\<close> render a value.\<close>

definition format_field :: "string option \<Rightarrow> string" where
  "format_field v = (case v of None \<Rightarrow> ''None'' | Some s \<Rightarrow> s)"

definition py_str :: "world \<Rightarrow> pyval \<Rightarrow> string" where
  "py_str w v = (case v of PStr s \<Rightarrow> s | _ \<Rightarrow> repr w v)"

section \<open>main\<close>

text \<open>\<^verbatim>\<open>^(?P<remote_name>[^/]+)/(?P<remote_branch_name>[^/]+)$\<close>\<close>

definition branch_pattern :: regex where
  "branch_pattern =
     Seq Bol
    (Seq (Group ''remote_name'' (PlusG (NoneOf CHR ''/'')))
    (Seq (One (Lit CHR ''/''))
    (Seq (Group ''remote_branch_name'' (PlusG (NoneOf CHR ''/'')))
     Eol)))"

definition trigger_url :: "RemoteInfo \<Rightarrow> string option \<Rightarrow> string" where
  "trigger_url remote_info branch_name =
     ''https://circleci.com/api/v1.1/project/'' @ service remote_info @ ''/''
       @ format_field (organization remote_info) @ ''/''
       @ format_field (repo_name remote_info) @ ''/tree/''
       @ format_field branch_name"

text \<open>
  An exception ends \<open>main\<close> with what was posted so far and nothing printed. The steps
  of \<open>main\<close> follow in the order of the script. A group that took no part in a match
  is \<open>None\<close>: as an argument of \<open>subprocess.run\<close> it raises \<open>TypeError\<close>, and
  \<open>str.format\<close> writes it as \<open>None\<close>.
\<close>

definition raised :: "request list \<Rightarrow> error \<Rightarrow> outcome" where
  "raised ps e = \<lparr>posts = ps, printed = [], result = Inl e\<rparr>"

definition main :: "world \<Rightarrow> outcome" where
  "main w =
    (case execute w [''git'', ''rev-parse'', ''--show-toplevel''] of
       Inl e \<Rightarrow> raised [] e
     | Inr top_dir \<Rightarrow>
    (case run_checked w [''circleci'', ''config'', ''validate''] (Some top_dir) of
       Inl e \<Rightarrow> raised [] e
     | Inr _ \<Rightarrow>
    (case get_config_yml w top_dir of
       Inl e \<Rightarrow> raised [] e
     | Inr config_yml_string \<Rightarrow>
    (case get_remote_tracking_branch w of
       Inl e \<Rightarrow> raised [] e
     | Inr remote_tracking_branch \<Rightarrow>
    (case re_match branch_pattern remote_tracking_branch of
       None \<Rightarrow> raised [] (Exception (''Cannot parse remote tracking branch '' @ remote_tracking_branch))
     | Some m \<Rightarrow>
    (case m ''remote_name'' of
       None \<Rightarrow> raised [] TypeError
     | Some remote_name \<Rightarrow>
    (case get_url_for_remote w remote_name of
       Inl e \<Rightarrow> raised [] e
     | Inr remote_url \<Rightarrow>
    (case parse_url_to_remote_info remote_url of
       Inl e \<Rightarrow> raised [] e
     | Inr remote_info \<Rightarrow>
    (case get_current_commit w of
       Inl e \<Rightarrow> raised [] e
     | Inr revision \<Rightarrow>
    (case get_auth_token w of
       Inl e \<Rightarrow> raised [] e
     | Inr auth_token \<Rightarrow>
    (let req = \<lparr>url = trigger_url remote_info (m ''remote_branch_name''),
                auth = (auth_token, ''''),
                data = [(''revision'', revision), (''notify'', ''false''),
                        (''config'', config_yml_string)]\<rparr>
     in
    (case post w req of
       Inl e \<Rightarrow> raised [req] e
     | Inr response \<Rightarrow>
    (case json response of
       None \<Rightarrow> raised [req] JSONDecodeError
     | Some response_data \<Rightarrow>
    (case raise_for_status response of
       Inl e \<Rightarrow> raised [req] e
     | Inr _ \<Rightarrow>
    (case subscript response_data ''build_url'' of
       Inl e \<Rightarrow> raised [req] e
     | Inr build_url \<Rightarrow>
       \<lparr>posts = [req],
        printed = ''Build triggered as '' @ py_str w build_url @ [newline],
        result = Inr ()\<rparr>)))))))))))))))"

text \<open>\<open>exit(main())\<close>: \<open>main\<close> returns \<open>None\<close>, which exits with status 0; an exception
  that nothing catches ends the process with status 1.\<close>

definition exit_status :: "outcome \<Rightarrow> int" where
  "exit_status out = (case result out of Inl e \<Rightarrow> 1 | Inr _ \<Rightarrow> 0)"

section \<open>A sample run\<close>

text \<open>
  A world for the examples: a checkout in \<open>/home/dev/project\<close> whose upstream is
  \<open>branch\<close> on a remote \<open>origin\<close> with push URL \<open>remote\<close>, a validator that exits
  with \<open>vrc\<close>, a token file, and a server that answers every POST with \<open>resp\<close>.
\<close>

definition sample_run :: "int \<Rightarrow> string \<Rightarrow> string \<Rightarrow> string list \<Rightarrow> string option \<Rightarrow> error + proc_result" where
  "sample_run vrc branch remote args cwd =
     (if args = [''git'', ''rev-parse'', ''--show-toplevel'']
      then Inr \<lparr>returncode = 0, stdout = ''/home/dev/project'' @ [newline]\<rparr>
      else if args = [''circleci'', ''config'', ''validate'']
      then Inr \<lparr>returncode = vrc, stdout = []\<rparr>
      else if args = [''git'', ''rev-parse'', ''--abbrev-ref'', ''--symbolic-full-name'', CHR ''@'' # ''{upstream}'']
      then Inr \<lparr>returncode = 0, stdout = branch @ [newline]\<rparr>
      else if args = [''git'', ''remote'', ''get-url'', ''--push'', ''origin'']
      then Inr \<lparr>returncode = 0, stdout = remote @ [newline]\<rparr>
      else if args = [''git'', ''rev-parse'', ''HEAD'']
      then Inr \<lparr>returncode = 0, stdout = ''4f2a9c1'' @ [newline]\<rparr>
      else Inr \<lparr>returncode = 128, stdout = []\<rparr>)"

definition sample_world :: "int \<Rightarrow> string \<Rightarrow> string \<Rightarrow> error + response \<Rightarrow> world" where
  "sample_world vrc branch remote resp =
     \<lparr>run = sample_run vrc branch remote,
      decode_utf8 = Inr,
      read_file = (\<lambda>path.
         if path = ''/home/dev/project/.circleci/config.yml'' then Inr ''version: 2''
         else if path = ''/home/dev/.circleci/cli.yml'' then Inr ''token: s3cret''
         else Inl (OSError path)),
      expanduser = (\<lambda>path. ''/home/dev'' @ tl path),
      yaml_load = (\<lambda>doc.
         if doc = ''token: s3cret'' then Inr (PDict [(''token'', PStr ''s3cret'')])
         else Inl YAMLError),
      post = (\<lambda>req. resp),
      repr = (\<lambda>v. ''<value>'')\<rparr>"

section \<open>The greedy search\<close>

text \<open>
  A greedy \<open>+\<close> that can take all of \<open>xs\<close> and no more hands the rest to its
  continuation; whenever it succeeds, it has taken a non-empty run of matching characters.
\<close>

lemma plus_item_stop: "\<not> item_ok it c \<Longrightarrow> plus_item it (c # cs) k = None"
  by simp

lemma plus_item_append:
  assumes "\<forall>c\<in>set xs. item_ok it c" and "xs \<noteq> []"
    and "plus_item it ys k = None" and "k ys = Some r"
  shows "plus_item it (xs @ ys) k = Some r"
  using assms
proof (induction xs)
  case Nil
  then show ?case by simp
next
  case (Cons x xs)
  show ?case
  proof (cases "xs = []")
    case True
    with Cons.prems show ?thesis by simp
  next
    case False
    with Cons have "plus_item it (xs @ ys) k = Some r" by simp
    with Cons.prems show ?thesis by simp
  qed
qed

lemma plus_item_SomeD:
  "plus_item it s k = Some r \<Longrightarrow>
   \<exists>xs ys. s = xs @ ys \<and> xs \<noteq> [] \<and> (\<forall>c\<in>set xs. item_ok it c) \<and> k ys = Some r"
proof (induction s)
  case Nil
  then show ?case by simp
next
  case (Cons c cs)
  then have ok: "item_ok it c" by (simp split: if_splits)
  show ?case
  proof (cases "plus_item it cs k")
    case None
    with Cons.prems ok have "k cs = Some r" by simp
    with ok have "c # cs = [c] @ cs \<and> [c] \<noteq> [] \<and> (\<forall>a\<in>set [c]. item_ok it a) \<and> k cs = Some r"
      by simp
    then show ?thesis by blast
  next
    case (Some r')
    with Cons.prems ok have "r' = r" by simp
    with Some Cons.IH obtain xs ys where
      "cs = xs @ ys" "xs \<noteq> []" "\<forall>a\<in>set xs. item_ok it a" "k ys = Some r" by blast
    then have "c # cs = (c # xs) @ ys \<and> c # xs \<noteq> [] \<and> (\<forall>a\<in>set (c # xs). item_ok it a) \<and> k ys = Some r"
      using ok by simp
    then show ?thesis by blast
  qed
qed

lemma rmatch_group_delim:
  assumes "d \<notin> set xs" and "xs \<noteq> []"
    and "rmatch r subj rest (g(name \<mapsto> xs)) k = Some res"
  shows "rmatch (Seq (Group name (PlusG (NoneOf d))) (Seq (One (Lit d)) r)) subj (xs @ d # rest) g k
         = Some res"
proof -
  let ?k = "\<lambda>s'. rmatch (Seq (One (Lit d)) r) subj s'
                 (g(name \<mapsto> take (length (xs @ d # rest) - length s') (xs @ d # rest))) k"
  have a: "\<forall>c\<in>set xs. item_ok (NoneOf d) c" using assms(1) by auto
  have b: "plus_item (NoneOf d) (d # rest) ?k = None" by (rule plus_item_stop) simp
  have c: "?k (d # rest) = Some res" using assms(3) by simp
  have "plus_item (NoneOf d) (xs @ d # rest) ?k = Some res"
    by (rule plus_item_append [where k = ?k and ys = "d # rest", OF a assms(2) b c])
  then show ?thesis by simp
qed

lemma rmatch_group_delimD:
  assumes "rmatch (Seq (Group name (PlusG (NoneOf d))) (Seq (One (Lit d)) r)) subj s g k = Some res"
  shows "\<exists>xs rest. s = xs @ d # rest \<and> xs \<noteq> [] \<and> d \<notin> set xs \<and>
           rmatch r subj rest (g(name \<mapsto> xs)) k = Some res"
proof -
  let ?k = "\<lambda>s'. rmatch (Seq (One (Lit d)) r) subj s'
                 (g(name \<mapsto> take (length s - length s') s)) k"
  from assms have "plus_item (NoneOf d) s ?k = Some res" by simp
  then obtain xs ys where s: "s = xs @ ys" and ne: "xs \<noteq> []"
    and ok: "\<forall>c\<in>set xs. item_ok (NoneOf d) c" and k: "?k ys = Some res"
    using plus_item_SomeD [of "NoneOf d" s ?k res] by blast
  have "ys \<noteq> []" using k by auto
  then obtain c rest where tl: "ys = c # rest" by (cases ys) auto
  have cd: "c = d" using k unfolding tl by (simp split: if_splits)
  have "rmatch r subj rest (g(name \<mapsto> xs)) k = Some res"
    using k unfolding tl s cd by simp
  moreover from ok have "d \<notin> set xs" by auto
  ultimately show ?thesis using s ne tl cd by blast
qed


lemma take_consumed: "take (length (xs @ ys) - length ys) (xs @ ys) = xs"
  by simp

lemma rmatch_bol: "rmatch (Seq Bol r) s s g k = rmatch r s s g k"
  by simp

lemma rmatch_opt_group_delim:
  assumes "d \<notin> set xs" and "xs \<noteq> []"
    and "rmatch r subj rest (g(n2 \<mapsto> xs, n1 \<mapsto> xs @ [d])) k = Some res"
  shows "rmatch (Seq (OptG (Group n1 (Seq (Group n2 (PlusG (NoneOf d))) (One (Lit d))))) r)
           subj (xs @ d # rest) g k = Some res"
proof -
  let ?s = "xs @ d # rest"
  let ?k = "\<lambda>s'. rmatch (One (Lit d)) subj s' (g(n2 \<mapsto> take (length ?s - length s') ?s))
                 (\<lambda>s'' g''. rmatch r subj s'' (g''(n1 \<mapsto> take (length ?s - length s'') ?s)) k)"
  have a: "\<forall>c\<in>set xs. item_ok (NoneOf d) c" using assms(1) by auto
  have b: "plus_item (NoneOf d) (d # rest) ?k = None" by (rule plus_item_stop) simp
  have t1: "take (length ?s - length (d # rest)) ?s = xs" by (rule take_consumed)
  have t2: "take (length ?s - length rest) ?s = xs @ [d]"
    using take_consumed [of "xs @ [d]" rest] by (simp only: append_assoc append.simps)
  have c: "?k (d # rest) = Some res"
    by (simp only: rmatch.simps list.case item_ok.simps simp_thms if_True t1 t2 assms(3))
  have "plus_item (NoneOf d) ?s ?k = Some res"
    by (rule plus_item_append [where k = ?k and ys = "d # rest", OF a assms(2) b c])
  then show ?thesis by (simp only: rmatch.simps(4-7) option.case)
qed

lemma rmatch_repo_suffix:
  assumes "newline \<notin> set repo" and "repo \<noteq> []" and "X \<noteq> newline"
    and "sfx = ''git'' \<or> sfx = ''gi''"
  shows "rmatch (Seq (Group ''repo_name'' (PlusG Dot))
                (Seq (One Dot) (Seq (One (Lit CHR ''g'')) (Seq (One (Lit CHR ''i''))
                (Seq (OptG (One (Lit CHR ''t''))) Eol)))))
           subj (repo @ X # sfx) g (\<lambda>s' g'. Some g')
         = Some (g(''repo_name'' \<mapsto> repo))"
proof -
  let ?s = "repo @ X # sfx"
  let ?k = "\<lambda>s'. rmatch (Seq (One Dot) (Seq (One (Lit CHR ''g'')) (Seq (One (Lit CHR ''i''))
                (Seq (OptG (One (Lit CHR ''t''))) Eol)))) subj s'
                 (g(''repo_name'' \<mapsto> take (length ?s - length s') ?s)) (\<lambda>s' g'. Some g')"
  have a: "\<forall>c\<in>set repo. item_ok Dot c" using assms(1) by auto
  have b: "plus_item Dot (X # sfx) ?k = None"
    using assms(3,4) by (auto simp: newline_def)
  have c: "?k (X # sfx) = Some (g(''repo_name'' \<mapsto> repo))"
    using assms(3,4) by (auto simp: newline_def)
  have "plus_item Dot ?s ?k = Some (g(''repo_name'' \<mapsto> repo))"
    by (rule plus_item_append [where k = ?k and ys = "X # sfx", OF a assms(2) b c])
  then show ?thesis by simp
qed

lemma url_pattern_match:
  assumes "org \<noteq> []" and "CHR ''/'' \<notin> set org"
    and "repo \<noteq> []" and "newline \<notin> set repo"
    and "X \<noteq> newline" and "sfx = ''git'' \<or> sfx = ''gi''"
  shows "re_match url_pattern (''git@github.com:'' @ org @ ''/'' @ repo @ X # sfx)
         = Some [''user'' \<mapsto> ''git'', ''1'' \<mapsto> ''git@'', ''hostname'' \<mapsto> ''github.com'',
                 ''organization'' \<mapsto> org, ''repo_name'' \<mapsto> repo]"
proof -
  let ?subj = "''git'' @ CHR ''@'' # (''github.com'' @ CHR '':'' # (org @ CHR ''/'' # (repo @ X # sfx)))"
  let ?m = "[''user'' \<mapsto> ''git'', ''1'' \<mapsto> ''git'' @ [CHR ''@''], ''hostname'' \<mapsto> ''github.com'',
             ''organization'' \<mapsto> org, ''repo_name'' \<mapsto> repo]"
  note r = rmatch_repo_suffix [OF assms(4) assms(3) assms(5) assms(6)]
  note o = rmatch_group_delim [OF assms(2) assms(1) r]
  have h1: "CHR '':'' \<notin> set ''github.com''" by simp
  have h2: "''github.com'' \<noteq> []" by simp
  note h = rmatch_group_delim [OF h1 h2 o]
  have u1: "CHR ''@'' \<notin> set ''git''" by simp
  have u2: "''git'' \<noteq> []" by simp
  note u = rmatch_opt_group_delim [OF u1 u2 h]
  have "rmatch url_pattern ?subj ?subj Map.empty (\<lambda>s' g'. Some g') = Some ?m"
    unfolding url_pattern_def rmatch_bol by (rule u)
  moreover have "?subj = ''git@github.com:'' @ org @ ''/'' @ repo @ X # sfx" by simp
  ultimately show ?thesis by (simp add: re_match_def del: rmatch.simps)
qed


section \<open>What \<open>parse_url_to_remote_info\<close> accepts\<close>

lemma parse_accepts:
  assumes "org \<noteq> []" and "CHR ''/'' \<notin> set org"
    and "repo \<noteq> []" and "newline \<notin> set repo"
    and "X \<noteq> newline" and "sfx = ''git'' \<or> sfx = ''gi''"
  shows "parse_url_to_remote_info (''git@github.com:'' @ org @ ''/'' @ repo @ X # sfx)
         = Inr \<lparr>service = ''github'', organization = Some org, repo_name = Some repo\<rparr>"
  using url_pattern_match [OF assms]
  by (simp add: parse_url_to_remote_info_def del: rmatch.simps)

lemma parse_bare_repo:
  "parse_url_to_remote_info ''git@github.com:org/repo''
   = Inl (Exception ''Could not parse remote URL git@github.com:org/repo'')"
  by (simp add: parse_url_to_remote_info_def re_match_def url_pattern_def newline_def)

text \<open>
  C1. The pattern is meant to make the \<open>.git\<close> suffix optional, but its \<open>?\<close> applies to
  the final \<open>t\<close> alone: the URL \<open>git@github.com:org/repo\<close>, which has no suffix, is not
  parsed; \<open>parse_url_to_remote_info\<close> raises.
\<close>

theorem parse_url_without_suffix_raises:
  "parse_url_to_remote_info ''git@github.com:org/repo''
   = Inl (Exception ''Could not parse remote URL git@github.com:org/repo'')"
  by (rule parse_bare_repo)

text \<open>
  C2. For every well-formed URL \<open>git@github.com:org/repo.git\<close>, in which \<open>org\<close> is
  non-empty and has no slash and no colon and \<open>repo\<close> is non-empty (a URL holds no line
  feed), \<open>parse_url_to_remote_info\<close> returns the record with service \<open>github\<close>,
  organization \<open>org\<close> and repository name \<open>repo\<close>.
\<close>

theorem parse_ssh_url:
  assumes "org \<noteq> []" and "CHR ''/'' \<notin> set org" and "CHR '':'' \<notin> set org"
    and "repo \<noteq> []" and "newline \<notin> set repo"
  shows "parse_url_to_remote_info (''git@github.com:'' @ org @ ''/'' @ repo @ ''.git'')
         = Inr \<lparr>service = ''github'', organization = Some org, repo_name = Some repo\<rparr>"
proof -
  have "CHR ''.'' \<noteq> newline" by (simp add: newline_def)
  then show ?thesis
    using parse_accepts [OF assms(1,2,4,5), of "CHR ''.''" "''git''"] by simp
qed

theorem parse_ssh_url_witness:
  "parse_url_to_remote_info ''git@github.com:acme/widgets.git''
   = Inr \<lparr>service = ''github'', organization = Some ''acme'', repo_name = Some ''widgets''\<rparr>"
  using parse_ssh_url [of "''acme''" "''widgets''"] by (simp add: newline_def)

section \<open>Rejected URLs\<close>

text \<open>
  A match changes no group outside the part of the pattern it runs through, so the
  \<open>hostname\<close> group keeps what it took: the text up to the first colon, after the
  user name and its \<open>@\<close> when the pattern takes one.
\<close>

lemma rmatch_SomeD:
  "rmatch r subj s g k = Some res \<Longrightarrow>
   \<exists>s' g'. k s' g' = Some res \<and> (\<forall>n. n \<notin> group_names r \<longrightarrow> g' n = g n)"
proof (induction r arbitrary: s g k)
  case Bol
  then show ?case by (auto split: if_splits)
next
  case Eol
  then show ?case by (auto split: if_splits)
next
  case (One it)
  then show ?case by (auto split: if_splits list.splits)
next
  case (PlusG it)
  then have "plus_item it s (\<lambda>s'. k s' g) = Some res" by simp
  from plus_item_SomeD [OF this] show ?case by auto
next
  case (OptG r)
  show ?case
  proof (cases "rmatch r subj s g k")
    case None
    with OptG.prems have "k s g = Some res" by simp
    then show ?thesis by auto
  next
    case (Some a)
    with OptG.prems have "rmatch r subj s g k = Some res" by simp
    from OptG.IH [OF this] show ?thesis by simp
  qed
next
  case (Group name r)
  let ?k = "\<lambda>s' g'. k s' (g'(name \<mapsto> take (length s - length s') s))"
  from Group.prems have "rmatch r subj s g ?k = Some res" by (simp only: rmatch.simps)
  from Group.IH [OF this] obtain s' g' where
    "?k s' g' = Some res" and a: "\<forall>n. n \<notin> group_names r \<longrightarrow> g' n = g n"
    by (elim exE conjE)
  then have "k s' (g'(name \<mapsto> take (length s - length s') s)) = Some res" by simp
  moreover from a have "\<forall>n. n \<notin> group_names (Group name r) \<longrightarrow>
       (g'(name \<mapsto> take (length s - length s') s)) n = g n" by simp
  ultimately show ?case by (intro exI conjI)
next
  case (Seq r1 r2)
  let ?k = "\<lambda>s' g'. rmatch r2 subj s' g' k"
  from Seq.prems have "rmatch r1 subj s g ?k = Some res" by (simp only: rmatch.simps)
  from Seq.IH(1) [OF this] obtain s1 g1 where
    m: "rmatch r2 subj s1 g1 k = Some res" and a: "\<forall>n. n \<notin> group_names r1 \<longrightarrow> g1 n = g n"
    by (elim exE conjE)
  from Seq.IH(2) [OF m] obtain s2 g2 where
    k: "k s2 g2 = Some res" and b: "\<forall>n. n \<notin> group_names r2 \<longrightarrow> g2 n = g1 n"
    by (elim exE conjE)
  from a b have "\<forall>n. n \<notin> group_names (Seq r1 r2) \<longrightarrow> g2 n = g n" by simp
  with k show ?case by (intro exI conjI)
qed


lemma url_pattern_hostD:
  assumes "re_match url_pattern u = Some m"
  shows "\<exists>host rest. m ''hostname'' = Some host \<and> host \<noteq> [] \<and> CHR '':'' \<notin> set host \<and>
           (u = host @ '':'' @ rest \<or>
            (\<exists>user. user \<noteq> [] \<and> CHR ''@'' \<notin> set user \<and> u = user @ ''@'' @ host @ '':'' @ rest))"
proof -
  let ?T = "Seq (Group ''organization'' (PlusG (NoneOf CHR ''/'')))
           (Seq (One (Lit CHR ''/''))
           (Seq (Group ''repo_name'' (PlusG Dot))
           (Seq (One Dot)
           (Seq (One (Lit CHR ''g''))
           (Seq (One (Lit CHR ''i''))
           (Seq (OptG (One (Lit CHR ''t'')))
            Eol))))))"
  let ?H = "Seq (Group ''hostname'' (PlusG (NoneOf CHR '':''))) (Seq (One (Lit CHR '':'')) ?T)"
  let ?U = "Group ''1'' (Seq (Group ''user'' (PlusG (NoneOf CHR ''@''))) (One (Lit CHR ''@'')))"
  let ?fin = "\<lambda>(s'::string) (g::groups). Some g"
  let ?cont = "\<lambda>s' g'. rmatch ?H u s' g' ?fin"
  have host: "\<exists>host rest. s = host @ CHR '':'' # rest \<and> host \<noteq> [] \<and> CHR '':'' \<notin> set host
                \<and> m ''hostname'' = Some host"
    if h: "rmatch ?H u s g ?fin = Some m" for s g
  proof -
    from rmatch_group_delimD [OF h] obtain host rest where
      s: "s = host @ CHR '':'' # rest" "host \<noteq> []" "CHR '':'' \<notin> set host"
      and t: "rmatch ?T u rest (g(''hostname'' \<mapsto> host)) ?fin = Some m"
      by (elim exE conjE)
    from rmatch_SomeD [where k = ?fin, OF t] obtain g' where "Some g' = Some m"
      and a: "\<forall>n. n \<notin> group_names ?T \<longrightarrow> g' n = (g(''hostname'' \<mapsto> host)) n"
      by (elim exE conjE)
    then have "m ''hostname'' = Some host" by simp
    with s show ?thesis by (intro exI conjI)
  qed
  from assms have "rmatch (Seq (OptG ?U) ?H) u u Map.empty ?fin = Some m"
    unfolding re_match_def url_pattern_def rmatch_bol .
  then have c: "(case rmatch ?U u u Map.empty ?cont of Some res \<Rightarrow> Some res
                 | None \<Rightarrow> ?cont u Map.empty) = Some m"
    by (simp only: rmatch.simps(5,7))
  show ?thesis
  proof (cases "rmatch ?U u u Map.empty ?cont")
    case None
    with c have "rmatch ?H u u Map.empty ?fin = Some m" by (simp only: option.case)
    from host [OF this] obtain hst rest where
      "u = hst @ CHR '':'' # rest" "hst \<noteq> []" "CHR '':'' \<notin> set hst" "m ''hostname'' = Some hst"
      by (elim exE conjE)
    then have "m ''hostname'' = Some hst \<and> hst \<noteq> [] \<and> CHR '':'' \<notin> set hst \<and>
           (u = hst @ '':'' @ rest \<or>
            (\<exists>user. user \<noteq> [] \<and> CHR ''@'' \<notin> set user \<and> u = user @ ''@'' @ hst @ '':'' @ rest))"
      by simp
    then show ?thesis by (intro exI)
  next
    case (Some a)
    with c have "rmatch ?U u u Map.empty ?cont = Some m" by (simp only: option.case)
    then have "plus_item (NoneOf CHR ''@'') u
        (\<lambda>s'. rmatch (One (Lit CHR ''@'')) u s'
                 [''user'' \<mapsto> take (length u - length s') u]
                 (\<lambda>s'' g''. rmatch ?H u s'' (g''(''1'' \<mapsto> take (length u - length s'') u)) ?fin))
        = Some m"
      by (simp only: rmatch.simps(4-7))
    from plus_item_SomeD [OF this] obtain user ys where
      u: "u = user @ ys" "user \<noteq> []" "\<forall>c\<in>set user. item_ok (NoneOf CHR ''@'') c"
      and k: "rmatch (One (Lit CHR ''@'')) u ys
                 [''user'' \<mapsto> take (length u - length ys) u]
                 (\<lambda>s'' g''. rmatch ?H u s'' (g''(''1'' \<mapsto> take (length u - length s'') u)) ?fin)
              = Some m"
      by (elim exE conjE)
    from k have "ys \<noteq> []" by (auto simp only: rmatch.simps list.case)
    then obtain c rest' where ys: "ys = c # rest'" by (cases ys) auto
    from k have cat: "c = CHR ''@''"
      unfolding ys by (simp only: rmatch.simps list.case item_ok.simps split: if_splits) simp
    from k have "rmatch ?H u rest'
        ([''user'' \<mapsto> take (length u - length ys) u](''1'' \<mapsto> take (length u - length rest') u)) ?fin
        = Some m"
      unfolding ys cat by (simp only: rmatch.simps(3) list.case item_ok.simps simp_thms if_True)
    from host [OF this] obtain hst rest where
      r: "rest' = hst @ CHR '':'' # rest" "hst \<noteq> []" "CHR '':'' \<notin> set hst"
        "m ''hostname'' = Some hst"
      by (elim exE conjE)
    from u(3) have "CHR ''@'' \<notin> set user" by auto
    with u(1,2) r ys cat have "m ''hostname'' = Some hst \<and> hst \<noteq> [] \<and> CHR '':'' \<notin> set hst \<and>
           (u = hst @ '':'' @ rest \<or>
            (\<exists>user. user \<noteq> [] \<and> CHR ''@'' \<notin> set user \<and> u = user @ ''@'' @ hst @ '':'' @ rest))"
      by auto
    then show ?thesis by (intro exI)
  qed
qed

text \<open>
  Whatever a pattern in sequence takes, the rest of the pattern starts at a suffix of
  the subject; a string that \<open>url_pattern\<close> matches therefore ends in a character
  other than the line feed followed by \<open>gi\<close> or \<open>git\<close>, and a final line feed at most.
\<close>

lemma rmatch_suffixD:
  "rmatch r subj s g k = Some res \<Longrightarrow> \<exists>pre s' g'. s = pre @ s' \<and> k s' g' = Some res"
proof (induction r arbitrary: s g k)
  case Bol
  then have "s = [] @ s \<and> k s g = Some res" by (simp split: if_splits)
  then show ?case by (intro exI)
next
  case Eol
  then have "s = [] @ s \<and> k s g = Some res" by (simp split: if_splits)
  then show ?case by (intro exI)
next
  case (One it)
  then obtain c cs where s: "s = c # cs" by (cases s) auto
  with One have "s = [c] @ cs \<and> k cs g = Some res" by (simp split: if_splits)
  then show ?case by (intro exI)
next
  case (PlusG it)
  then have "plus_item it s (\<lambda>s'. k s' g) = Some res" by simp
  from plus_item_SomeD [where k = "\<lambda>s'. k s' g", OF this] obtain xs ys where
    "s = xs @ ys" "k ys g = Some res" by (elim exE conjE)
  then have "s = xs @ ys \<and> k ys g = Some res" by simp
  then show ?case by (intro exI)
next
  case (OptG r)
  show ?case
  proof (cases "rmatch r subj s g k")
    case None
    with OptG.prems have "s = [] @ s \<and> k s g = Some res" by simp
    then show ?thesis by (intro exI)
  next
    case (Some a)
    with OptG.prems have "rmatch r subj s g k = Some res" by simp
    from OptG.IH [OF this] show ?thesis .
  qed
next
  case (Group name r)
  let ?k = "\<lambda>s' g'. k s' (g'(name \<mapsto> take (length s - length s') s))"
  from Group.prems have "rmatch r subj s g ?k = Some res" by (simp only: rmatch.simps)
  from Group.IH [where k = ?k, OF this] obtain pre s' g' where
    "s = pre @ s'" "?k s' g' = Some res" by (elim exE conjE)
  then have "s = pre @ s' \<and> k s' (g'(name \<mapsto> take (length s - length s') s)) = Some res"
    by simp
  then show ?case by (intro exI)
next
  case (Seq r1 r2)
  let ?k = "\<lambda>s' g'. rmatch r2 subj s' g' k"
  from Seq.prems have "rmatch r1 subj s g ?k = Some res" by (simp only: rmatch.simps)
  from Seq.IH(1) [where k = ?k, OF this] obtain p1 s1 g1 where
    a: "s = p1 @ s1" and m: "rmatch r2 subj s1 g1 k = Some res" by (elim exE conjE)
  from Seq.IH(2) [OF m] obtain p2 s2 g2 where
    b: "s1 = p2 @ s2" and k: "k s2 g2 = Some res" by (elim exE conjE)
  from a b k have "s = (p1 @ p2) @ s2 \<and> k s2 g2 = Some res" by simp
  then show ?case by (intro exI)
qed

lemma rmatch_SeqD:
  assumes "rmatch (Seq r1 r2) subj s g k = Some res"
  shows "\<exists>pre s' g'. s = pre @ s' \<and> rmatch r2 subj s' g' k = Some res"
proof -
  let ?k = "\<lambda>s' g'. rmatch r2 subj s' g' k"
  from assms have "rmatch r1 subj s g ?k = Some res" by (simp only: rmatch.simps)
  from rmatch_suffixD [where k = ?k, OF this] show ?thesis .
qed

lemma tail_shape:
  assumes "rmatch (Seq (One Dot) (Seq (One (Lit CHR ''g'')) (Seq (One (Lit CHR ''i''))
                (Seq (OptG (One (Lit CHR ''t''))) Eol)))) subj s g k = Some res"
  shows "\<exists>X sfx. s = X # sfx \<and> X \<noteq> newline \<and>
           (sfx = ''gi'' \<or> sfx = ''git'' \<or> sfx = ''gi'' @ [newline] \<or> sfx = ''git'' @ [newline])"
  using assms by (auto split: list.splits if_splits option.splits)

lemma url_pattern_suffixD:
  assumes "re_match url_pattern u = Some m"
  shows "\<exists>body X sfx. u = body @ X # sfx \<and> X \<noteq> newline \<and>
           (sfx = ''gi'' \<or> sfx = ''git'' \<or> sfx = ''gi'' @ [newline] \<or> sfx = ''git'' @ [newline])"
proof -
  let ?fin = "\<lambda>(s'::string) (g::groups). Some g"
  from assms have "rmatch url_pattern u u Map.empty ?fin = Some m"
    by (simp only: re_match_def)
  then have 0: "rmatch url_pattern u u Map.empty ?fin = Some m" .
  from rmatch_SeqD [OF 0 [unfolded url_pattern_def]] obtain p1 s1 g1 where
    e1: "u = p1 @ s1" and 1: "rmatch
      (Seq (OptG (Group ''1'' (Seq (Group ''user'' (PlusG (NoneOf CHR ''@''))) (One (Lit CHR ''@'')))))
      (Seq (Group ''hostname'' (PlusG (NoneOf CHR '':'')))
      (Seq (One (Lit CHR '':''))
      (Seq (Group ''organization'' (PlusG (NoneOf CHR ''/'')))
      (Seq (One (Lit CHR ''/''))
      (Seq (Group ''repo_name'' (PlusG Dot))
      (Seq (One Dot)
      (Seq (One (Lit CHR ''g''))
      (Seq (One (Lit CHR ''i''))
      (Seq (OptG (One (Lit CHR ''t'')))
       Eol)))))))))) u s1 g1 ?fin = Some m"
    by (elim exE conjE)
  from rmatch_SeqD [OF 1] obtain p2 s2 g2 where
    e2: "s1 = p2 @ s2" and 2: "rmatch
      (Seq (Group ''hostname'' (PlusG (NoneOf CHR '':'')))
      (Seq (One (Lit CHR '':''))
      (Seq (Group ''organization'' (PlusG (NoneOf CHR ''/'')))
      (Seq (One (Lit CHR ''/''))
      (Seq (Group ''repo_name'' (PlusG Dot))
      (Seq (One Dot)
      (Seq (One (Lit CHR ''g''))
      (Seq (One (Lit CHR ''i''))
      (Seq (OptG (One (Lit CHR ''t'')))
       Eol))))))))) u s2 g2 ?fin = Some m"
    by (elim exE conjE)
  from rmatch_SeqD [OF 2] obtain p3 s3 g3 where
    e3: "s2 = p3 @ s3" and 3: "rmatch
      (Seq (One (Lit CHR '':''))
      (Seq (Group ''organization'' (PlusG (NoneOf CHR ''/'')))
      (Seq (One (Lit CHR ''/''))
      (Seq (Group ''repo_name'' (PlusG Dot))
      (Seq (One Dot)
      (Seq (One (Lit CHR ''g''))
      (Seq (One (Lit CHR ''i''))
      (Seq (OptG (One (Lit CHR ''t'')))
       Eol)))))))) u s3 g3 ?fin = Some m"
    by (elim exE conjE)
  from rmatch_SeqD [OF 3] obtain p4 s4 g4 where
    e4: "s3 = p4 @ s4" and 4: "rmatch
      (Seq (Group ''organization'' (PlusG (NoneOf CHR ''/'')))
      (Seq (One (Lit CHR ''/''))
      (Seq (Group ''repo_name'' (PlusG Dot))
      (Seq (One Dot)
      (Seq (One (Lit CHR ''g''))
      (Seq (One (Lit CHR ''i''))
      (Seq (OptG (One (Lit CHR ''t'')))
       Eol))))))) u s4 g4 ?fin = Some m"
    by (elim exE conjE)
  from rmatch_SeqD [OF 4] obtain p5 s5 g5 where
    e5: "s4 = p5 @ s5" and 5: "rmatch
      (Seq (One (Lit CHR ''/''))
      (Seq (Group ''repo_name'' (PlusG Dot))
      (Seq (One Dot)
      (Seq (One (Lit CHR ''g''))
      (Seq (One (Lit CHR ''i''))
      (Seq (OptG (One (Lit CHR ''t'')))
       Eol)))))) u s5 g5 ?fin = Some m"
    by (elim exE conjE)
  from rmatch_SeqD [OF 5] obtain p6 s6 g6 where
    e6: "s5 = p6 @ s6" and 6: "rmatch
      (Seq (Group ''repo_name'' (PlusG Dot))
      (Seq (One Dot)
      (Seq (One (Lit CHR ''g''))
      (Seq (One (Lit CHR ''i''))
      (Seq (OptG (One (Lit CHR ''t'')))
       Eol))))) u s6 g6 ?fin = Some m"
    by (elim exE conjE)
  from rmatch_SeqD [OF 6] obtain p7 s7 g7 where
    e7: "s6 = p7 @ s7" and 7: "rmatch
      (Seq (One Dot)
      (Seq (One (Lit CHR ''g''))
      (Seq (One (Lit CHR ''i''))
      (Seq (OptG (One (Lit CHR ''t'')))
       Eol)))) u s7 g7 ?fin = Some m"
    by (elim exE conjE)
  from tail_shape [OF 7] obtain X sfx where
    t: "s7 = X # sfx" "X \<noteq> newline"
      "sfx = ''gi'' \<or> sfx = ''git'' \<or> sfx = ''gi'' @ [newline] \<or> sfx = ''git'' @ [newline]"
    by (elim exE conjE)
  from e1 e2 e3 e4 e5 e6 e7 t(1) have "u = (p1 @ p2 @ p3 @ p4 @ p5 @ p6 @ p7) @ X # sfx"
    by simp
  with t(2,3) have "u = (p1 @ p2 @ p3 @ p4 @ p5 @ p6 @ p7) @ X # sfx \<and> X \<noteq> newline \<and>
      (sfx = ''gi'' \<or> sfx = ''git'' \<or> sfx = ''gi'' @ [newline] \<or> sfx = ''git'' @ [newline])"
    by (intro conjI)
  then show ?thesis by (intro exI)
qed

lemma parse_rejects_repo_end:
  "parse_url_to_remote_info (pre @ ''org/repo'')
   = Inl (Exception (''Could not parse remote URL '' @ pre @ ''org/repo''))"
proof -
  have "re_match url_pattern (pre @ ''org/repo'') = None"
  proof (cases "re_match url_pattern (pre @ ''org/repo'')")
    case None
    then show ?thesis .
  next
    case (Some m)
    from url_pattern_suffixD [OF Some] obtain body X sfx where
      e: "pre @ ''org/repo'' = body @ X # sfx"
      and s: "sfx = ''gi'' \<or> sfx = ''git'' \<or> sfx = ''gi'' @ [newline] \<or> sfx = ''git'' @ [newline]"
      by (elim exE conjE)
    from e have "last (pre @ ''org/repo'') = last (body @ X # sfx)" by (rule arg_cong)
    moreover have "last (pre @ ''org/repo'') = CHR ''o''" by simp
    moreover from s have "last (body @ X # sfx) \<noteq> CHR ''o''" by (auto simp: newline_def)
    ultimately show ?thesis by simp
  qed
  then show ?thesis by (simp add: parse_url_to_remote_info_def del: rmatch.simps)
qed

lemma url_pattern_host_text:
  assumes "re_match url_pattern u = Some m"
  shows "m ''hostname'' = Some (takeWhile (\<lambda>c. c \<noteq> CHR '':'') u)
       \<or> m ''hostname'' = Some (takeWhile (\<lambda>c. c \<noteq> CHR '':'')
                                  (drop 1 (dropWhile (\<lambda>c. c \<noteq> CHR ''@'') u)))"
proof -
  from url_pattern_hostD [OF assms] obtain host rest where
    h: "m ''hostname'' = Some host" "CHR '':'' \<notin> set host"
    and u: "u = host @ '':'' @ rest \<or>
            (\<exists>user. user \<noteq> [] \<and> CHR ''@'' \<notin> set user \<and> u = user @ ''@'' @ host @ '':'' @ rest)"
    by (elim exE conjE)
  from h(2) have t: "takeWhile (\<lambda>c. c \<noteq> CHR '':'') (host @ CHR '':'' # rest) = host"
    by (induction host) auto
  from u show ?thesis
  proof
    assume "u = host @ '':'' @ rest"
    with t h(1) show ?thesis by simp
  next
    assume "\<exists>user. user \<noteq> [] \<and> CHR ''@'' \<notin> set user \<and> u = user @ ''@'' @ host @ '':'' @ rest"
    then obtain user where n: "CHR ''@'' \<notin> set user" and e: "u = user @ ''@'' @ host @ '':'' @ rest"
      by (elim exE conjE)
    from n have "dropWhile (\<lambda>c. c \<noteq> CHR ''@'') (user @ CHR ''@'' # host @ CHR '':'' # rest)
                 = CHR ''@'' # host @ CHR '':'' # rest"
      by (induction user) auto
    with e t h(1) show ?thesis by simp
  qed
qed

text \<open>
  C8. The host that the pattern reads is the text before the first colon, or, when it
  takes a user part, the text between the first \<open>@\<close> and the colon after it. A URL in
  which neither of the two is exactly \<open>github.com\<close>, and a URL that the pattern does not
  match, makes \<open>parse_url_to_remote_info\<close> raise the parse failure; it returns no
  \<open>RemoteInfo\<close>.
\<close>

theorem parse_rejects:
  assumes "(takeWhile (\<lambda>c. c \<noteq> CHR '':'') u \<noteq> ''github.com''
            \<and> takeWhile (\<lambda>c. c \<noteq> CHR '':'') (drop 1 (dropWhile (\<lambda>c. c \<noteq> CHR ''@'') u))
                \<noteq> ''github.com'')
         \<or> re_match url_pattern u = None"
  shows "parse_url_to_remote_info u = Inl (Exception (''Could not parse remote URL '' @ u))
       \<and> (\<forall>info. parse_url_to_remote_info u \<noteq> Inr info)"
proof (cases "re_match url_pattern u")
  case None
  then show ?thesis by (simp add: parse_url_to_remote_info_def del: rmatch.simps)
next
  case (Some m)
  with assms have "takeWhile (\<lambda>c. c \<noteq> CHR '':'') u \<noteq> ''github.com''"
    "takeWhile (\<lambda>c. c \<noteq> CHR '':'') (drop 1 (dropWhile (\<lambda>c. c \<noteq> CHR ''@'') u)) \<noteq> ''github.com''"
    by simp_all
  with url_pattern_host_text [OF Some] have "m ''hostname'' \<noteq> Some ''github.com''" by auto
  with Some show ?thesis by (simp add: parse_url_to_remote_info_def del: rmatch.simps)
qed

theorem parse_rejects_witness:
  "parse_url_to_remote_info ''git@gitlab.com:org/repo.git''
     = Inl (Exception ''Could not parse remote URL git@gitlab.com:org/repo.git'')
   \<and> parse_url_to_remote_info ''https://github.com/org/repo''
     = Inl (Exception ''Could not parse remote URL https://github.com/org/repo'')"
proof -
  have h1: "takeWhile (\<lambda>c. c \<noteq> CHR '':'') ''git@gitlab.com:org/repo.git'' \<noteq> ''github.com''
            \<and> takeWhile (\<lambda>c. c \<noteq> CHR '':'')
                 (drop 1 (dropWhile (\<lambda>c. c \<noteq> CHR ''@'') ''git@gitlab.com:org/repo.git''))
                \<noteq> ''github.com''"
    by simp
  have h2: "re_match url_pattern ''https://github.com/org/repo'' = None"
    by (simp add: re_match_def url_pattern_def newline_def)
  from parse_rejects [OF disjI1, OF h1] parse_rejects [OF disjI2, OF h2]
  show ?thesis by simp
qed

text \<open>
  As C8 is written, the host part is that of the URL. The user part of the pattern takes
  colons and slashes, so a URL whose text before the first colon is another host is
  parsed as a repository of \<open>github.com\<close>.
\<close>

theorem host_before_first_colon_counterexample:
  "takeWhile (\<lambda>c. c \<noteq> CHR '':'') ''evil.com:x/y@github.com:org/repo.git'' = ''evil.com''
   \<and> parse_url_to_remote_info ''evil.com:x/y@github.com:org/repo.git''
       = Inr \<lparr>service = ''github'', organization = Some ''org'', repo_name = Some ''repo''\<rparr>"
  by (simp add: parse_url_to_remote_info_def re_match_def url_pattern_def newline_def)

text \<open>
  C10. The character before \<open>git\<close> need not be a dot and the final \<open>t\<close> may be missing:
  for every character \<open>X\<close> other than the line feed, \<open>git@github.com:org/repoXgit\<close> and
  \<open>git@github.com:org/repoXgi\<close> (\<open>org\<close> non-empty without a slash, \<open>repo\<close> non-empty
  without a line feed) are parsed with repository name \<open>repo\<close>, and every URL that ends
  in \<open>org/repo\<close>, with no such suffix, is rejected.
\<close>

theorem parse_suffix_any_character:
  assumes "X \<noteq> newline"
    and "org \<noteq> []" and "CHR ''/'' \<notin> set org" and "repo \<noteq> []" and "newline \<notin> set repo"
  shows "parse_url_to_remote_info (''git@github.com:'' @ org @ ''/'' @ repo @ X # ''git'')
           = Inr \<lparr>service = ''github'', organization = Some org, repo_name = Some repo\<rparr>
       \<and> parse_url_to_remote_info (''git@github.com:'' @ org @ ''/'' @ repo @ X # ''gi'')
           = Inr \<lparr>service = ''github'', organization = Some org, repo_name = Some repo\<rparr>
       \<and> (\<forall>pre. parse_url_to_remote_info (pre @ ''org/repo'')
                  = Inl (Exception (''Could not parse remote URL '' @ pre @ ''org/repo'')))"
proof -
  have "parse_url_to_remote_info (''git@github.com:'' @ org @ ''/'' @ repo @ X # ''git'')
          = Inr \<lparr>service = ''github'', organization = Some org, repo_name = Some repo\<rparr>"
    by (rule parse_accepts [OF assms(2-5) assms(1)]) simp
  moreover
  have "parse_url_to_remote_info (''git@github.com:'' @ org @ ''/'' @ repo @ X # ''gi'')
          = Inr \<lparr>service = ''github'', organization = Some org, repo_name = Some repo\<rparr>"
    by (rule parse_accepts [OF assms(2-5) assms(1)]) simp
  ultimately show ?thesis using parse_rejects_repo_end by simp
qed

theorem parse_suffix_any_character_witness:
  "parse_url_to_remote_info ''git@github.com:org/repoXgit''
       = Inr \<lparr>service = ''github'', organization = Some ''org'', repo_name = Some ''repo''\<rparr>
   \<and> parse_url_to_remote_info ''git@github.com:org/repoXgi''
       = Inr \<lparr>service = ''github'', organization = Some ''org'', repo_name = Some ''repo''\<rparr>
   \<and> parse_url_to_remote_info ''git@github.com:org/repo''
       = Inl (Exception ''Could not parse remote URL git@github.com:org/repo'')"
proof -
  have h: "CHR ''X'' \<noteq> newline" "''org'' \<noteq> []" "CHR ''/'' \<notin> set ''org''"
    "''repo'' \<noteq> []" "newline \<notin> set ''repo''"
    by (simp_all add: newline_def)
  note r = parse_suffix_any_character [OF h]
  note c = r [THEN conjunct2, THEN conjunct2, THEN spec, of "''git@github.com:''"]
  from r c show ?thesis by simp
qed

text \<open>As C10 is written, \<open>X\<close> is any character; the line feed is one the dot does not match.\<close>

theorem parse_suffix_line_feed_counterexample:
  "parse_url_to_remote_info (''git@github.com:org/repo'' @ CHR 0x0A # ''git'')
   = Inl (Exception (''Could not parse remote URL git@github.com:org/repo'' @ CHR 0x0A # ''git''))"
  by (simp add: parse_url_to_remote_info_def re_match_def url_pattern_def newline_def)

section \<open>The tracking branch pattern\<close>

text \<open>A string that \<open>branch_pattern\<close> matches is two non-empty parts without a slash,
  with one slash between them.\<close>

lemma branch_pattern_matchD:
  assumes "re_match branch_pattern tb = Some m"
  shows "\<exists>remote branch. tb = remote @ ''/'' @ branch \<and> remote \<noteq> [] \<and> branch \<noteq> []
           \<and> CHR ''/'' \<notin> set remote \<and> CHR ''/'' \<notin> set branch"
proof -
  let ?r = "Seq (Group ''remote_branch_name'' (PlusG (NoneOf CHR ''/''))) Eol"
  from assms have h: "rmatch (Seq (Group ''remote_name'' (PlusG (NoneOf CHR ''/'')))
                     (Seq (One (Lit CHR ''/'')) ?r)) tb tb Map.empty (\<lambda>s' g. Some g) = Some m"
    unfolding re_match_def branch_pattern_def rmatch_bol .
  from rmatch_group_delimD [OF h]
  obtain remote rest where tb: "tb = remote @ CHR ''/'' # rest" and r: "remote \<noteq> []"
    "CHR ''/'' \<notin> set remote"
    and m: "rmatch ?r tb rest [''remote_name'' \<mapsto> remote] (\<lambda>s' g. Some g) = Some m"
    by (elim exE conjE)
  let ?k = "\<lambda>s'. rmatch Eol tb s' ([''remote_name'' \<mapsto> remote](''remote_branch_name'' \<mapsto>
               take (length rest - length s') rest)) (\<lambda>s' g. Some g)"
  from m have p: "plus_item (NoneOf CHR ''/'') rest ?k = Some m"
    by (simp only: rmatch.simps(4-7))
  from plus_item_SomeD [where k = ?k, OF p]
  obtain xs ys where rest: "rest = xs @ ys" and xs: "xs \<noteq> []"
    "\<forall>c\<in>set xs. item_ok (NoneOf CHR ''/'') c" and k: "?k ys = Some m"
    by (elim exE conjE)
  from k have "ys = [] \<or> ys = [newline]"
    by (simp only: rmatch.simps option.distinct split: if_splits)
  then have ys: "CHR ''/'' \<notin> set ys" by (auto simp: newline_def)
  from xs(2) have "CHR ''/'' \<notin> set xs" by auto
  with ys xs(1) rest have "rest \<noteq> []" "CHR ''/'' \<notin> set rest" by simp_all
  with tb r have "tb = remote @ ''/'' @ rest \<and> remote \<noteq> [] \<and> rest \<noteq> []
           \<and> CHR ''/'' \<notin> set remote \<and> CHR ''/'' \<notin> set rest" by simp
  then show ?thesis by (intro exI)
qed

section \<open>The run up to the request\<close>

text \<open>
  \<open>main\<close> calls \<open>requests.post\<close> only after every earlier step has returned, and then
  with the request built from their results.
\<close>

lemma main_reaches_post:
  assumes p: "posts (main w) = [req]"
  obtains top_dir r cfg tb m rn ru ri revision tok where
    "execute w [''git'', ''rev-parse'', ''--show-toplevel''] = Inr top_dir"
    "run_checked w [''circleci'', ''config'', ''validate''] (Some top_dir) = Inr r"
    "get_config_yml w top_dir = Inr cfg"
    "get_remote_tracking_branch w = Inr tb"
    "re_match branch_pattern tb = Some m"
    "m ''remote_name'' = Some rn"
    "get_url_for_remote w rn = Inr ru"
    "parse_url_to_remote_info ru = Inr ri"
    "get_current_commit w = Inr revision"
    "get_auth_token w = Inr tok"
    "req = \<lparr>url = trigger_url ri (m ''remote_branch_name''), auth = (tok, ''''),
            data = [(''revision'', revision), (''notify'', ''false''), (''config'', cfg)]\<rparr>"
proof -
  note d = main_def raised_def
  obtain top_dir where 1: "execute w [''git'', ''rev-parse'', ''--show-toplevel''] = Inr top_dir"
    using p by (cases "execute w [''git'', ''rev-parse'', ''--show-toplevel'']") (simp_all add: d)
  obtain r where 2: "run_checked w [''circleci'', ''config'', ''validate''] (Some top_dir) = Inr r"
    using p 1 by (cases "run_checked w [''circleci'', ''config'', ''validate''] (Some top_dir)")
      (simp_all add: d)
  obtain cfg where 3: "get_config_yml w top_dir = Inr cfg"
    using p 1 2 by (cases "get_config_yml w top_dir") (simp_all add: d)
  obtain tb where 4: "get_remote_tracking_branch w = Inr tb"
    using p 1 2 3 by (cases "get_remote_tracking_branch w") (simp_all add: d)
  obtain m where 5: "re_match branch_pattern tb = Some m"
    using p 1 2 3 4 by (cases "re_match branch_pattern tb") (simp_all add: d)
  obtain rn where 6: "m ''remote_name'' = Some rn"
    using p 1 2 3 4 5 by (cases "m ''remote_name''") (simp_all add: d)
  obtain ru where 7: "get_url_for_remote w rn = Inr ru"
    using p 1 2 3 4 5 6 by (cases "get_url_for_remote w rn") (simp_all add: d)
  obtain ri where 8: "parse_url_to_remote_info ru = Inr ri"
    using p 1 2 3 4 5 6 7 by (cases "parse_url_to_remote_info ru") (simp_all add: d)
  obtain revision where 9: "get_current_commit w = Inr revision"
    using p 1 2 3 4 5 6 7 8 by (cases "get_current_commit w") (simp_all add: d)
  obtain tok where 10: "get_auth_token w = Inr tok"
    using p 1 2 3 4 5 6 7 8 9 by (cases "get_auth_token w") (simp_all add: d)
  let ?req = "\<lparr>url = trigger_url ri (m ''remote_branch_name''), auth = (tok, ''''),
            data = [(''revision'', revision), (''notify'', ''false''), (''config'', cfg)]\<rparr>"
  have "posts (main w) = [?req]"
    using 1 2 3 4 5 6 7 8 9 10
    by (simp add: d Let_def split: sum.split option.split)
  with p have "req = ?req" by simp
  with 1 2 3 4 5 6 7 8 9 10 that show thesis by blast
qed

lemma main_after_post:
  assumes p: "posts (main w) = [req]"
  shows "main w =
    (case post w req of
       Inl e \<Rightarrow> raised [req] e
     | Inr response \<Rightarrow>
    (case json response of
       None \<Rightarrow> raised [req] JSONDecodeError
     | Some response_data \<Rightarrow>
    (case raise_for_status response of
       Inl e \<Rightarrow> raised [req] e
     | Inr _ \<Rightarrow>
    (case subscript response_data ''build_url'' of
       Inl e \<Rightarrow> raised [req] e
     | Inr build_url \<Rightarrow>
       \<lparr>posts = [req],
        printed = ''Build triggered as '' @ py_str w build_url @ [newline],
        result = Inr ()\<rparr>))))"
proof -
  from p obtain top_dir r cfg tb m rn ru ri revision tok where
    f: "execute w [''git'', ''rev-parse'', ''--show-toplevel''] = Inr top_dir"
    "run_checked w [''circleci'', ''config'', ''validate''] (Some top_dir) = Inr r"
    "get_config_yml w top_dir = Inr cfg"
    "get_remote_tracking_branch w = Inr tb"
    "re_match branch_pattern tb = Some m"
    "m ''remote_name'' = Some rn"
    "get_url_for_remote w rn = Inr ru"
    "parse_url_to_remote_info ru = Inr ri"
    "get_current_commit w = Inr revision"
    "get_auth_token w = Inr tok"
    and e: "req = \<lparr>url = trigger_url ri (m ''remote_branch_name''), auth = (tok, []),
            data = [(''revision'', revision), (''notify'', ''false''), (''config'', cfg)]\<rparr>"
    by (rule main_reaches_post)
  show ?thesis unfolding e using f by (simp add: main_def Let_def)
qed

lemmas sample_defs =
  sample_world_def sample_run_def execute_def run_checked_def strip_def is_space_def
  newline_def get_config_yml_def os_path_join_def get_remote_tracking_branch_def
  get_url_for_remote_def get_current_commit_def get_auth_token_def

lemmas main_defs =
  main_def raised_def Let_def re_match_def branch_pattern_def url_pattern_def
  parse_url_to_remote_info_def trigger_url_def format_field_def

lemma sample_posts:
  "posts (main (sample_world 0 ''origin/feature-x'' ''git@github.com:acme/widgets.git'' resp))
   = [\<lparr>url = ''https://circleci.com/api/v1.1/project/github/acme/widgets/tree/feature-x'',
       auth = (PStr ''s3cret'', []),
       data = [(''revision'', ''4f2a9c1''), (''notify'', ''false''),
               (''config'', ''version: 2'')]\<rparr>]"
  by (simp add: sample_defs main_defs split: sum.split option.split)

lemma sample_post:
  "post (sample_world vrc branch remote resp) req = resp"
  by (simp add: sample_world_def)

lemma execute_ok:
  assumes "run w args None = Inr r" and "returncode r = 0"
    and "decode_utf8 w (stdout r) = Inr t"
  shows "execute w args = Inr (strip t)"
  using assms by (simp add: execute_def run_checked_def)

text \<open>
  C3. With remote URL \<open>git@github.com:acme/widgets.git\<close> and tracking branch
  \<open>origin/feature-x\<close>, \<open>main\<close> posts one request: to
  \<open>https://circleci.com/api/v1.1/project/github/acme/widgets/tree/feature-x\<close>, with the
  \<open>token\<close> entry of \<open>~/.circleci/cli.yml\<close> as user name and an empty password, and with
  the fields \<open>revision\<close> (the output of \<open>git rev-parse HEAD\<close>), \<open>notify=false\<close> and
  \<open>config\<close>, the last holding the bytes of \<open>.circleci/config.yml\<close> under the top
  directory of the checkout.
\<close>

theorem trigger_request:
  assumes top: "run w [''git'', ''rev-parse'', ''--show-toplevel''] None = Inr r1"
      "returncode r1 = 0" "decode_utf8 w (stdout r1) = Inr t1" "strip t1 = top_dir"
    and val: "run w [''circleci'', ''config'', ''validate''] (Some top_dir) = Inr r2"
      "returncode r2 = 0"
    and cfg: "read_file w (if top_dir = [] \<or> last top_dir = CHR ''/''
                          then top_dir @ ''.circleci/config.yml''
                          else top_dir @ ''/.circleci/config.yml'') = Inr cfg"
    and br: "run w [''git'', ''rev-parse'', ''--abbrev-ref'', ''--symbolic-full-name'',
                    CHR ''@'' # ''{upstream}''] None = Inr r3"
      "returncode r3 = 0" "decode_utf8 w (stdout r3) = Inr t3" "strip t3 = ''origin/feature-x''"
    and ru: "run w [''git'', ''remote'', ''get-url'', ''--push'', ''origin''] None = Inr r4"
      "returncode r4 = 0" "decode_utf8 w (stdout r4) = Inr t4"
      "strip t4 = ''git@github.com:acme/widgets.git''"
    and rv: "run w [''git'', ''rev-parse'', ''HEAD''] None = Inr r5"
      "returncode r5 = 0" "decode_utf8 w (stdout r5) = Inr t5" "strip t5 = revision"
    and tok: "read_file w (expanduser w ''~/.circleci/cli.yml'') = Inr doc"
      "yaml_load w doc = Inr (PDict kvs)" "map_of kvs ''token'' = Some token"
  shows "posts (main w) =
           [\<lparr>url = ''https://circleci.com/api/v1.1/project/github/acme/widgets/tree/feature-x'',
             auth = (token, ''''),
             data = [(''revision'', revision), (''notify'', ''false''), (''config'', cfg)]\<rparr>]"
proof -
  have 1: "execute w [''git'', ''rev-parse'', ''--show-toplevel''] = Inr top_dir"
    using execute_ok [OF top(1-3)] top(4) by simp
  have 2: "run_checked w [''circleci'', ''config'', ''validate''] (Some top_dir) = Inr r2"
    using val by (simp add: run_checked_def)
  have 3: "get_config_yml w top_dir = Inr cfg"
    using cfg by (auto simp: get_config_yml_def os_path_join_def split: if_splits)
  have 4: "get_remote_tracking_branch w = Inr ''origin/feature-x''"
    using execute_ok [OF br(1-3)] br(4) by (simp add: get_remote_tracking_branch_def)
  have 5: "get_url_for_remote w ''origin'' = Inr ''git@github.com:acme/widgets.git''"
    using execute_ok [OF ru(1-3)] ru(4) by (simp add: get_url_for_remote_def)
  have 6: "get_current_commit w = Inr revision"
    using execute_ok [OF rv(1-3)] rv(4) by (simp add: get_current_commit_def)
  have 7: "get_auth_token w = Inr token"
    using tok by (simp add: get_auth_token_def)
  have b: "re_match branch_pattern ''origin/feature-x''
           = Some [''remote_name'' \<mapsto> ''origin'', ''remote_branch_name'' \<mapsto> ''feature-x'']"
    by (simp add: re_match_def branch_pattern_def newline_def)
  have u: "parse_url_to_remote_info ''git@github.com:acme/widgets.git''
           = Inr \<lparr>service = ''github'', organization = Some ''acme'', repo_name = Some ''widgets''\<rparr>"
    by (simp add: parse_url_to_remote_info_def re_match_def url_pattern_def newline_def)
  show ?thesis
    using 1 2 3 4 5 6 7 b u
    by (simp add: main_def raised_def Let_def trigger_url_def format_field_def
          del: rmatch.simps split: sum.split option.split)
qed

theorem trigger_request_witness:
  "posts (main (sample_world 0 ''origin/feature-x'' ''git@github.com:acme/widgets.git''
                  (Inl ConnectionError)))
   = [\<lparr>url = ''https://circleci.com/api/v1.1/project/github/acme/widgets/tree/feature-x'',
       auth = (PStr ''s3cret'', []),
       data = [(''revision'', ''4f2a9c1''), (''notify'', ''false''),
               (''config'', ''version: 2'')]\<rparr>]"
proof -
  let ?w = "sample_world 0 ''origin/feature-x'' ''git@github.com:acme/widgets.git''
              (Inl ConnectionError)"
  note d = sample_world_def sample_run_def strip_def is_space_def newline_def
  have t: "run ?w [''git'', ''rev-parse'', ''--show-toplevel''] None
             = Inr \<lparr>returncode = 0, stdout = ''/home/dev/project'' @ [newline]\<rparr>"
    "returncode \<lparr>returncode = 0, stdout = ''/home/dev/project'' @ [newline]\<rparr> = 0"
    "decode_utf8 ?w (stdout \<lparr>returncode = 0, stdout = ''/home/dev/project'' @ [newline]\<rparr>)
       = Inr (''/home/dev/project'' @ [newline])"
    "strip (''/home/dev/project'' @ [newline]) = ''/home/dev/project''"
    by (simp_all add: d)
  have v: "run ?w [''circleci'', ''config'', ''validate''] (Some ''/home/dev/project'')
             = Inr \<lparr>returncode = 0, stdout = []\<rparr>"
    "returncode \<lparr>returncode = 0, stdout = []\<rparr> = 0"
    by (simp_all add: d)
  have c: "read_file ?w (if ''/home/dev/project'' = [] \<or> last ''/home/dev/project'' = CHR ''/''
                          then ''/home/dev/project'' @ ''.circleci/config.yml''
                          else ''/home/dev/project'' @ ''/.circleci/config.yml'') = Inr ''version: 2''"
    by (simp add: d)
  have b: "run ?w [''git'', ''rev-parse'', ''--abbrev-ref'', ''--symbolic-full-name'',
                    CHR ''@'' # ''{upstream}''] None
             = Inr \<lparr>returncode = 0, stdout = ''origin/feature-x'' @ [newline]\<rparr>"
    "returncode \<lparr>returncode = 0, stdout = ''origin/feature-x'' @ [newline]\<rparr> = 0"
    "decode_utf8 ?w (stdout \<lparr>returncode = 0, stdout = ''origin/feature-x'' @ [newline]\<rparr>)
       = Inr (''origin/feature-x'' @ [newline])"
    "strip (''origin/feature-x'' @ [newline]) = ''origin/feature-x''"
    by (simp_all add: d)
  have u: "run ?w [''git'', ''remote'', ''get-url'', ''--push'', ''origin''] None
             = Inr \<lparr>returncode = 0, stdout = ''git@github.com:acme/widgets.git'' @ [newline]\<rparr>"
    "returncode \<lparr>returncode = 0, stdout = ''git@github.com:acme/widgets.git'' @ [newline]\<rparr> = 0"
    "decode_utf8 ?w
       (stdout \<lparr>returncode = 0, stdout = ''git@github.com:acme/widgets.git'' @ [newline]\<rparr>)
       = Inr (''git@github.com:acme/widgets.git'' @ [newline])"
    "strip (''git@github.com:acme/widgets.git'' @ [newline]) = ''git@github.com:acme/widgets.git''"
    by (simp_all add: d)
  have r: "run ?w [''git'', ''rev-parse'', ''HEAD''] None
             = Inr \<lparr>returncode = 0, stdout = ''4f2a9c1'' @ [newline]\<rparr>"
    "returncode \<lparr>returncode = 0, stdout = ''4f2a9c1'' @ [newline]\<rparr> = 0"
    "decode_utf8 ?w (stdout \<lparr>returncode = 0, stdout = ''4f2a9c1'' @ [newline]\<rparr>)
       = Inr (''4f2a9c1'' @ [newline])"
    "strip (''4f2a9c1'' @ [newline]) = ''4f2a9c1''"
    by (simp_all add: d)
  have k: "read_file ?w (expanduser ?w ''~/.circleci/cli.yml'') = Inr ''token: s3cret''"
    "yaml_load ?w ''token: s3cret'' = Inr (PDict [(''token'', PStr ''s3cret'')])"
    "map_of [(''token'', PStr ''s3cret'')] ''token'' = Some (PStr ''s3cret'')"
    by (simp_all add: d)
  show ?thesis by (rule trigger_request [OF t v c b u r k])
qed

text \<open>
  C4. When \<open>circleci config validate\<close> exits with a status other than 0, \<open>main\<close> raises
  there and posts nothing.
\<close>

theorem validator_failure_no_post:
  assumes "execute w [''git'', ''rev-parse'', ''--show-toplevel''] = Inr top_dir"
    and "run w [''circleci'', ''config'', ''validate''] (Some top_dir) = Inr r"
    and "returncode r \<noteq> 0"
  shows "posts (main w) = []
       \<and> result (main w) = Inl (CalledProcessError (returncode r) [''circleci'', ''config'', ''validate''])"
  using assms by (simp add: main_def raised_def run_checked_def)

theorem validator_failure_no_post_witness:
  "posts (main (sample_world 1 ''origin/feature-x'' ''git@github.com:acme/widgets.git''
                  (Inl ConnectionError))) = []
   \<and> result (main (sample_world 1 ''origin/feature-x'' ''git@github.com:acme/widgets.git''
                  (Inl ConnectionError)))
       = Inl (CalledProcessError 1 [''circleci'', ''config'', ''validate''])"
proof -
  let ?w = "sample_world 1 ''origin/feature-x'' ''git@github.com:acme/widgets.git''
              (Inl ConnectionError)"
  have 1: "execute ?w [''git'', ''rev-parse'', ''--show-toplevel''] = Inr ''/home/dev/project''"
    by (simp add: sample_defs)
  have 2: "run ?w [''circleci'', ''config'', ''validate''] (Some ''/home/dev/project'')
           = Inr \<lparr>returncode = 1, stdout = []\<rparr>"
    by (simp add: sample_defs)
  have 3: "returncode \<lparr>returncode = 1, stdout = []\<rparr> \<noteq> 0" by simp
  from validator_failure_no_post [OF 1 2 3] show ?thesis by simp
qed

text \<open>
  C5. When the remote tracking branch is not one slash between two non-empty parts
  without a slash, \<open>main\<close> raises the parse failure of the tracking branch and has
  posted nothing.
\<close>

theorem bad_tracking_branch_raises:
  assumes "execute w [''git'', ''rev-parse'', ''--show-toplevel''] = Inr top_dir"
    and "run_checked w [''circleci'', ''config'', ''validate''] (Some top_dir) = Inr r"
    and "get_config_yml w top_dir = Inr cfg"
    and "get_remote_tracking_branch w = Inr tb"
    and "\<not> (\<exists>remote branch. tb = remote @ ''/'' @ branch \<and> remote \<noteq> [] \<and> branch \<noteq> []
              \<and> CHR ''/'' \<notin> set remote \<and> CHR ''/'' \<notin> set branch)"
  shows "result (main w) = Inl (Exception (''Cannot parse remote tracking branch '' @ tb))
       \<and> posts (main w) = []"
proof -
  have "re_match branch_pattern tb = None"
  proof (cases "re_match branch_pattern tb")
    case None
    then show ?thesis .
  next
    case (Some m)
    from branch_pattern_matchD [OF Some] assms(5) show ?thesis by (elim notE)
  qed
  with assms(1-4) show ?thesis by (simp add: main_def raised_def)
qed

theorem bad_tracking_branch_raises_witness:
  "result (main (sample_world 0 ''origin/feature/x'' ''git@github.com:acme/widgets.git''
                   (Inl ConnectionError)))
     = Inl (Exception ''Cannot parse remote tracking branch origin/feature/x'')
   \<and> posts (main (sample_world 0 ''origin/feature/x'' ''git@github.com:acme/widgets.git''
                   (Inl ConnectionError))) = []"
proof -
  let ?w = "sample_world 0 ''origin/feature/x'' ''git@github.com:acme/widgets.git''
              (Inl ConnectionError)"
  let ?slash = "\<lambda>c. c = CHR ''/''"
  have 1: "execute ?w [''git'', ''rev-parse'', ''--show-toplevel''] = Inr ''/home/dev/project''"
    by (simp add: sample_defs)
  have 2: "run_checked ?w [''circleci'', ''config'', ''validate''] (Some ''/home/dev/project'')
           = Inr \<lparr>returncode = 0, stdout = []\<rparr>"
    by (simp add: sample_defs)
  have 3: "get_config_yml ?w ''/home/dev/project'' = Inr ''version: 2''"
    by (simp add: sample_defs)
  have 4: "get_remote_tracking_branch ?w = Inr ''origin/feature/x''"
    by (simp add: sample_defs)
  have 5: "\<not> (\<exists>remote branch. ''origin/feature/x'' = remote @ ''/'' @ branch
              \<and> remote \<noteq> [] \<and> branch \<noteq> []
              \<and> CHR ''/'' \<notin> set remote \<and> CHR ''/'' \<notin> set branch)"
  proof
    assume "\<exists>remote branch. ''origin/feature/x'' = remote @ ''/'' @ branch
              \<and> remote \<noteq> [] \<and> branch \<noteq> []
              \<and> CHR ''/'' \<notin> set remote \<and> CHR ''/'' \<notin> set branch"
    then obtain remote branch where e: "''origin/feature/x'' = remote @ ''/'' @ branch"
      and n: "CHR ''/'' \<notin> set remote" "CHR ''/'' \<notin> set branch"
      by (elim exE conjE)
    from n have "filter ?slash remote = []" "filter ?slash branch = []"
      by (auto simp: filter_empty_conv)
    then have "length (filter ?slash (remote @ ''/'' @ branch)) = 1" by simp
    moreover have "length (filter ?slash ''origin/feature/x'') = 2" by simp
    ultimately show False using e by simp
  qed
  from bad_tracking_branch_raises [OF 1 2 3 4 5] show ?thesis by simp
qed

section \<open>The response\<close>

text \<open>
  C6. When the POST returns a status from 400 to 599 (401 among them), the program
  raises, exits with status 1 and prints nothing.
\<close>

theorem http_error_status_raises:
  assumes "posts (main w) = [req]" and "post w req = Inr resp"
    and "400 \<le> status_code resp" and "status_code resp < 600"
  shows "(\<exists>e. result (main w) = Inl e) \<and> exit_status (main w) = 1 \<and> printed (main w) = []"
  using assms(2-4) unfolding main_after_post [OF assms(1)]
  by (simp add: raised_def raise_for_status_def exit_status_def split: option.split)

theorem http_error_status_raises_witness:
  "exit_status (main (sample_world 0 ''origin/feature-x'' ''git@github.com:acme/widgets.git''
      (Inr \<lparr>status_code = 401, json = Some (PDict [(''message'', PStr ''Unauthorized'')])\<rparr>))) = 1
   \<and> printed (main (sample_world 0 ''origin/feature-x'' ''git@github.com:acme/widgets.git''
      (Inr \<lparr>status_code = 401, json = Some (PDict [(''message'', PStr ''Unauthorized'')])\<rparr>))) = []"
proof -
  let ?resp = "\<lparr>status_code = 401, json = Some (PDict [(''message'', PStr ''Unauthorized'')])\<rparr>"
  have 1: "400 \<le> status_code ?resp" by simp
  have 2: "status_code ?resp < 600" by simp
  from http_error_status_raises [OF sample_posts sample_post 1 2] show ?thesis by simp
qed

text \<open>
  As C6 is written, every status outside 200 to 299 raises. \<open>raise_for_status\<close> raises
  from 400 to 599 only: a response with status 300 and a build URL in its body is
  printed, and the program exits with status 0.
\<close>

theorem status_300_counterexample:
  "printed (main (sample_world 0 ''origin/feature-x'' ''git@github.com:acme/widgets.git''
      (Inr \<lparr>status_code = 300,
            json = Some (PDict [(''build_url'', PStr ''https://circleci.com/gh/org/repo/123'')])\<rparr>)))
     = ''Build triggered as https://circleci.com/gh/org/repo/123'' @ [CHR 0x0A]
   \<and> exit_status (main (sample_world 0 ''origin/feature-x'' ''git@github.com:acme/widgets.git''
      (Inr \<lparr>status_code = 300,
            json = Some (PDict [(''build_url'', PStr ''https://circleci.com/gh/org/repo/123'')])\<rparr>)))
     = 0"
  by (simp add: sample_defs main_defs raise_for_status_def py_str_def exit_status_def)

text \<open>
  C7. When the POST returns a status from 200 to 299 and the JSON body
  \<open>{"build_url": "https://circleci.com/gh/org/repo/123"}\<close>, the program prints the line
  \<open>Build triggered as https://circleci.com/gh/org/repo/123\<close> and exits with status 0.
\<close>

theorem build_url_printed:
  assumes "posts (main w) = [req]" and "post w req = Inr resp"
    and "200 \<le> status_code resp" and "status_code resp < 300"
    and "json resp = Some (PDict [(''build_url'', PStr ''https://circleci.com/gh/org/repo/123'')])"
  shows "printed (main w) = ''Build triggered as https://circleci.com/gh/org/repo/123'' @ [newline]
       \<and> exit_status (main w) = 0"
  using assms(2-5) unfolding main_after_post [OF assms(1)]
  by (simp add: raise_for_status_def exit_status_def py_str_def)

theorem build_url_printed_witness:
  "printed (main (sample_world 0 ''origin/feature-x'' ''git@github.com:acme/widgets.git''
      (Inr \<lparr>status_code = 201,
            json = Some (PDict [(''build_url'', PStr ''https://circleci.com/gh/org/repo/123'')])\<rparr>)))
     = ''Build triggered as https://circleci.com/gh/org/repo/123'' @ [newline]
   \<and> exit_status (main (sample_world 0 ''origin/feature-x'' ''git@github.com:acme/widgets.git''
      (Inr \<lparr>status_code = 201,
            json = Some (PDict [(''build_url'', PStr ''https://circleci.com/gh/org/repo/123'')])\<rparr>)))
     = 0"
proof -
  let ?resp = "\<lparr>status_code = 201,
     json = Some (PDict [(''build_url'', PStr ''https://circleci.com/gh/org/repo/123'')])\<rparr>"
  have 1: "200 \<le> status_code ?resp" by simp
  have 2: "status_code ?resp < 300" by simp
  have 3: "json ?resp = Some (PDict [(''build_url'', PStr ''https://circleci.com/gh/org/repo/123'')])"
    by simp
  show ?thesis by (rule build_url_printed [OF sample_posts sample_post 1 2 3])
qed

text \<open>
  C9. After the POST the body is decoded first, the status is checked second, the build
  URL is printed last: a body that is not valid JSON raises the JSON failure whatever the
  status is; with a decoded body, a status from 400 to 599 raises the status failure and
  nothing is printed; with a decoded body and any other status, the build URL is printed.
\<close>

theorem response_steps_in_order:
  assumes "posts (main w) = [req]" and "post w req = Inr resp"
  shows "(json resp = None \<longrightarrow>
            result (main w) = Inl JSONDecodeError \<and> printed (main w) = [])
       \<and> (\<forall>body. json resp = Some body \<and> 400 \<le> status_code resp \<and> status_code resp < 600 \<longrightarrow>
            result (main w) = Inl (HTTPError (status_code resp)) \<and> printed (main w) = [])
       \<and> (\<forall>kvs s. json resp = Some (PDict kvs)
              \<and> \<not> (400 \<le> status_code resp \<and> status_code resp < 600)
              \<and> map_of kvs ''build_url'' = Some (PStr s) \<longrightarrow>
            result (main w) = Inr ()
            \<and> printed (main w) = ''Build triggered as '' @ s @ [CHR 0x0A])"
  using assms(2) unfolding main_after_post [OF assms(1)]
  by (auto simp: raised_def raise_for_status_def py_str_def newline_def)

theorem response_steps_in_order_witness:
  "result (main (sample_world 0 ''origin/feature-x'' ''git@github.com:acme/widgets.git''
      (Inr \<lparr>status_code = 401, json = None\<rparr>))) = Inl JSONDecodeError
   \<and> result (main (sample_world 0 ''origin/feature-x'' ''git@github.com:acme/widgets.git''
      (Inr \<lparr>status_code = 401, json = Some (PDict [(''message'', PStr ''Unauthorized'')])\<rparr>)))
       = Inl (HTTPError 401)
   \<and> printed (main (sample_world 0 ''origin/feature-x'' ''git@github.com:acme/widgets.git''
      (Inr \<lparr>status_code = 200, json = Some (PDict [(''build_url'', PStr ''u'')])\<rparr>)))
       = ''Build triggered as u'' @ [CHR 0x0A]"
proof -
  let ?r1 = "\<lparr>status_code = 401, json = None\<rparr>"
  let ?r2 = "\<lparr>status_code = 401, json = Some (PDict [(''message'', PStr ''Unauthorized'')])\<rparr>"
  let ?r3 = "\<lparr>status_code = 200, json = Some (PDict [(''build_url'', PStr ''u'')])\<rparr>"
  let ?req = "\<lparr>url = ''https://circleci.com/api/v1.1/project/github/acme/widgets/tree/feature-x'',
       auth = (PStr ''s3cret'', []),
       data = [(''revision'', ''4f2a9c1''), (''notify'', ''false''),
               (''config'', ''version: 2'')]\<rparr>"
  have p: "posts (main (sample_world 0 ''origin/feature-x'' ''git@github.com:acme/widgets.git'' x))
           = [?req]" for x
    by (rule sample_posts)
  have q: "post (sample_world 0 ''origin/feature-x'' ''git@github.com:acme/widgets.git'' x) ?req = x"
    for x by (rule sample_post)
  note a = response_steps_in_order [OF p q, of ?r1, THEN conjunct1]
  note b = response_steps_in_order [OF p q, of ?r2, THEN conjunct2, THEN conjunct1, THEN spec,
      of "PDict [(''message'', PStr ''Unauthorized'')]"]
  note c = response_steps_in_order [OF p q, of ?r3, THEN conjunct2, THEN conjunct2, THEN spec,
      THEN spec, of "[(''build_url'', PStr ''u'')]" "''u''"]
  from a b c show ?thesis by simp
qed

text \<open>
  As C9 is written, the second step raises on every status outside 200 to 299; at status
  300 it does not raise.
\<close>

theorem status_300_no_raise_counterexample:
  "result (main (sample_world 0 ''origin/feature-x'' ''git@github.com:acme/widgets.git''
      (Inr \<lparr>status_code = 300, json = Some (PDict [(''build_url'', PStr ''u'')])\<rparr>)))
     = Inr ()"
  by (simp add: sample_defs main_defs raise_for_status_def py_str_def)

end
